theory Spec2Isabelle
  imports Complex_Main "HOL-Library.AList" "HOL-Library.Char_ord" "HOL-Library.List_Lexorder"
begin

section \<open>Python values and errors\<close>

text \<open>
  Exceptions of the Python source are values: a function that can raise returns
  \<open>py_error + 'a\<close>, with \<open>Inl\<close> for the exception. \<open>Uncaught\<close> stands for an
  exception raised inside an external collaborator (pandas, the database handler) that
  the calling code does not catch.
\<close>

datatype py_error = IndexError | TypeError | ZeroDivisionError | Uncaught

text \<open>
  Reading and writing a list by index. Python raises \<open>IndexError\<close> out of range; the
  indices of the modelled code are never negative.
\<close>

definition list_get :: "'a list \<Rightarrow> nat \<Rightarrow> py_error + 'a" where
  "list_get xs i = (if i < length xs then Inr (xs ! i) else Inl IndexError)"

definition list_set :: "'a list \<Rightarrow> nat \<Rightarrow> 'a \<Rightarrow> py_error + 'a list" where
  "list_set xs i v = (if i < length xs then Inr (xs[i := v]) else Inl IndexError)"

section \<open>EditableTable: dirty rows, deleted asset ids, pagination\<close>

text \<open>
  The fields of \<open>EditableTable\<close> (EditableTableClass.py) that the tracking, saving and
  paging methods read and write. \<open>data_count\<close> is \<open>len(self._data)\<close> and
  \<open>filtered_count\<close> is \<open>len(self._filtered)\<close>; the data frames themselves are not needed.
\<close>

datatype data_source_type = FILE | SQLITE

record table =
  changed_rows :: "int list"
  deleted_asset_ids :: "string list"
  must_save :: bool
  source_type :: data_source_type
  data_count :: nat
  filtered_count :: nat
  pagination_enabled :: bool
  current_page :: int
  total_pages :: int
  rows_per_page :: int

text \<open>The class attributes give every new table these values (lines 45-73, 96).\<close>

definition new_table :: "data_source_type \<Rightarrow> int \<Rightarrow> table" where
  "new_table src rpp =
     \<lparr> changed_rows = [], deleted_asset_ids = [], must_save = False, source_type = src,
       data_count = 0, filtered_count = 0, pagination_enabled = True,
       current_page = 1, total_pages = 1, rows_per_page = rpp \<rparr>"

subsection \<open>Tracking\<close>

definition add_to_rows_to_save :: "int \<Rightarrow> table \<Rightarrow> table" where
  "add_to_rows_to_save row_index t =
     (if row_index < 0 \<or> row_index > int (data_count t) \<or> row_index \<in> set (changed_rows t)
      then t
      else t\<lparr>changed_rows := changed_rows t @ [row_index]\<rparr>)"

definition clear_rows_to_save :: "table \<Rightarrow> table" where
  "clear_rows_to_save t = t\<lparr>changed_rows := []\<rparr>"

definition add_to_asset_ids_to_delete :: "string \<Rightarrow> table \<Rightarrow> table" where
  "add_to_asset_ids_to_delete asset_id t =
     (if asset_id \<in> set (deleted_asset_ids t)
      then t
      else t\<lparr>deleted_asset_ids := deleted_asset_ids t @ [asset_id]\<rparr>)"

definition clear_asset_ids_to_delete :: "table \<Rightarrow> table" where
  "clear_asset_ids_to_delete t = t\<lparr>deleted_asset_ids := []\<rparr>"

text \<open>
  A sequence of tracking calls. Between two calls the table's data may have grown or
  shrunk (rows are created and dropped), so each \<open>add_to_rows_to_save\<close> call carries the
  value of \<open>len(self.get_data())\<close> at the moment it is made.
\<close>

datatype track_call = Add_row nat int | Add_delete string

fun track :: "track_call \<Rightarrow> table \<Rightarrow> table" where
  "track (Add_row n row_index) t = add_to_rows_to_save row_index (t\<lparr>data_count := n\<rparr>)"
| "track (Add_delete asset_id) t = add_to_asset_ids_to_delete asset_id t"

definition track_all :: "track_call list \<Rightarrow> table \<Rightarrow> table" where
  "track_all calls t = foldl (\<lambda>s c. track c s) t calls"

definition tracking_ok :: "table \<Rightarrow> bool" where
  "tracking_ok t \<longleftrightarrow>
     distinct (changed_rows t) \<and> list_all (\<lambda>r. 0 \<le> r) (changed_rows t) \<and>
     distinct (deleted_asset_ids t)"

subsection \<open>Pagination\<close>

text \<open>
  \<open>update_page\<close> (lines 656-680). Python's \<open>//\<close> is floor division, as \<open>div\<close> on \<open>int\<close>
  is, and raises on a zero divisor. The slice \<open>iloc[start:end]\<close> is a positional slice,
  which pandas truncates to the rows that exist and which therefore never raises
  \<open>IndexError\<close>: the \<open>except\<close> branch that would reset \<open>current_page\<close> is not reached.
  The colouring and the two GUI callbacks do not touch the modelled fields.
\<close>

definition update_page :: "table \<Rightarrow> py_error + table" where
  "update_page t =
     (if pagination_enabled t then
        (if rows_per_page t = 0 then Inl ZeroDivisionError
         else Inr (t\<lparr>total_pages := (int (filtered_count t) - 1) div rows_per_page t + 1\<rparr>))
      else Inr (t\<lparr>current_page := 1, total_pages := 1\<rparr>))"

text \<open>
  \<open>update\<close> (lines 637-654) recomputes \<open>self._filtered\<close> from the data and the mask of the
  filter frame; \<open>kept\<close> is the number of rows that this mask keeps at the time of the call
  (all rows when there is no filter frame or no mask).
\<close>

definition update :: "bool \<Rightarrow> nat \<Rightarrow> table \<Rightarrow> py_error + table" where
  "update reset_page kept t =
     update_page ((if reset_page then t\<lparr>current_page := 1\<rparr> else t)\<lparr>filtered_count := kept\<rparr>)"

definition next_page :: "nat \<Rightarrow> table \<Rightarrow> py_error + table" where
  "next_page kept t =
     (if current_page t < total_pages t
      then update False kept (t\<lparr>current_page := current_page t + 1\<rparr>)
      else Inr t)"

definition prev_page :: "nat \<Rightarrow> table \<Rightarrow> py_error + table" where
  "prev_page kept t =
     (if current_page t > 1
      then update False kept (t\<lparr>current_page := current_page t - 1\<rparr>)
      else Inr t)"

definition first_page :: "nat \<Rightarrow> table \<Rightarrow> py_error + table" where
  "first_page kept t = update False kept (t\<lparr>current_page := 1\<rparr>)"

definition last_page :: "nat \<Rightarrow> table \<Rightarrow> py_error + table" where
  "last_page kept t = update False kept (t\<lparr>current_page := total_pages t\<rparr>)"

text \<open>
  \<open>valid_source_type\<close> (lines 190-204) first stores the type that the extension of the file
  name gives, \<open>detected\<close>, and asks the user only when it differs from the stored one;
  \<open>answer\<close> is what \<open>box_yesno\<close> returns then. The new type stays whatever the answer is.
\<close>

definition valid_source_type :: "data_source_type \<Rightarrow> bool \<Rightarrow> table \<Rightarrow> bool \<times> table" where
  "valid_source_type detected answer t =
     ((if source_type t \<noteq> detected then answer else True), t\<lparr>source_type := detected\<rparr>)"

text \<open>
  \<open>load_data\<close> (lines 206-250), from the point of view of the modelled fields: \<open>n\<close> is
  \<open>len(self._data)\<close> once the source has been read. The method returns its success flag.
\<close>

definition load_data :: "data_source_type \<Rightarrow> bool \<Rightarrow> nat \<Rightarrow> table \<Rightarrow> py_error + (bool \<times> table)" where
  "load_data detected answer n t =
     (case valid_source_type detected answer t of
        (go_on, t1) \<Rightarrow>
          if \<not> go_on then Inr (False, t1)
          else if n \<le> 0 then Inr (False, t1\<lparr>data_count := n\<rparr>)
          else if rows_per_page t1 = 0 then Inl ZeroDivisionError
          else Inr (True, t1\<lparr>data_count := n,
                               total_pages := (int n - 1) div rows_per_page t1 + 1\<rparr>))"

text \<open>The paging calls as one type, to speak about "any operation".\<close>

datatype page_call = Update bool | Update_page | Next_page | Prev_page | First_page | Last_page

fun run_page_call :: "page_call \<Rightarrow> nat \<Rightarrow> table \<Rightarrow> py_error + table" where
  "run_page_call (Update reset_page) kept t = update reset_page kept t"
| "run_page_call Update_page kept t = update_page t"
| "run_page_call Next_page kept t = next_page kept t"
| "run_page_call Prev_page kept t = prev_page kept t"
| "run_page_call First_page kept t = first_page kept t"
| "run_page_call Last_page kept t = last_page kept t"

text \<open>
  The bounds the specification asks of a view: the page count is the ceiling of the
  filtered row count over the page size, and the current page is one of the pages.
\<close>

definition page_count_ok :: "table \<Rightarrow> bool" where
  "page_count_ok t \<longleftrightarrow>
     total_pages t = \<lceil>real (filtered_count t) / real_of_int (rows_per_page t)\<rceil>"

definition current_page_ok :: "table \<Rightarrow> bool" where
  "current_page_ok t \<longleftrightarrow> 1 \<le> current_page t \<and> current_page t \<le> total_pages t"

text \<open>A table of 100 rows, 36 per page, displayed at its last page.\<close>

definition paged_table :: table where
  "paged_table =
     (new_table FILE 36)\<lparr>data_count := 100, filtered_count := 100, total_pages := 3,
                          current_page := 3\<rparr>"

subsection \<open>Saving\<close>

text \<open>
  What the collaborators of \<open>save_data\<close> do is an input of the model: whether
  \<open>data.to_csv\<close> raises, whether \<open>get_row\<close> finds the row, and for each dirty row and
  each asset id to delete whether the database call succeeds, raises one of the
  exceptions the loop catches (\<open>KeyError\<close>, \<open>ValueError\<close>, \<open>AttributeError\<close>), or raises
  anything else.
\<close>

datatype outcome = Succeeds | Raises_caught | Raises_uncaught

record save_env =
  to_csv_raises :: bool
  row_found :: "int \<Rightarrow> bool"
  save_ue_asset :: "int \<Rightarrow> outcome"
  delete_asset :: "string \<Rightarrow> outcome"

datatype table_log =
    Info_row_saved int
  | Warning_row_not_saved int
  | Info_asset_deleted string
  | Warning_asset_not_deleted string
  | Box_data_saved

definition logged :: "table_log \<Rightarrow> table_log list \<times> py_error option \<Rightarrow> table_log list \<times> py_error option" where
  "logged l r = (l # fst r, snd r)"

fun save_changed_rows :: "save_env \<Rightarrow> int list \<Rightarrow> table_log list \<times> py_error option" where
  "save_changed_rows env [] = ([], None)"
| "save_changed_rows env (row # rows) =
     (if \<not> row_found env row then save_changed_rows env rows
      else (case save_ue_asset env row of
              Succeeds \<Rightarrow> logged (Info_row_saved row) (save_changed_rows env rows)
            | Raises_caught \<Rightarrow> logged (Warning_row_not_saved row) (save_changed_rows env rows)
            | Raises_uncaught \<Rightarrow> ([], Some Uncaught)))"

fun delete_assets :: "save_env \<Rightarrow> string list \<Rightarrow> table_log list \<times> py_error option" where
  "delete_assets env [] = ([], None)"
| "delete_assets env (asset_id # ids) =
     (case delete_asset env asset_id of
        Succeeds \<Rightarrow> logged (Info_asset_deleted asset_id) (delete_assets env ids)
      | Raises_caught \<Rightarrow> logged (Warning_asset_not_deleted asset_id) (delete_assets env ids)
      | Raises_uncaught \<Rightarrow> ([], Some Uncaught))"

text \<open>
  \<open>save_data\<close> (lines 323-391) returns the table as the call leaves it, what was logged,
  and the exception that ended the call, if any. Only a call that reaches its last
  lines clears the two lists and the flag.
\<close>

definition write_source :: "data_source_type \<Rightarrow> save_env \<Rightarrow> table \<Rightarrow> table_log list \<times> py_error option" where
  "write_source src env t =
     (case src of
        FILE \<Rightarrow> (if to_csv_raises env then ([], Some Uncaught) else ([], None))
      | SQLITE \<Rightarrow>
          (case save_changed_rows env (changed_rows t) of
             (msgs, Some e) \<Rightarrow> (msgs, Some e)
           | (msgs, None) \<Rightarrow>
               (case delete_assets env (deleted_asset_ids t) of (msgs', r) \<Rightarrow> (msgs @ msgs', r))))"

definition save_data :: "data_source_type option \<Rightarrow> save_env \<Rightarrow> table \<Rightarrow> table \<times> table_log list \<times> py_error option" where
  "save_data src env t =
     (case write_source (case src of None \<Rightarrow> source_type t | Some s \<Rightarrow> s) env t of
        (msgs, Some e) \<Rightarrow> (t, msgs, Some e)
      | (msgs, None) \<Rightarrow>
          ((clear_asset_ids_to_delete (clear_rows_to_save t))\<lparr>must_save := False\<rparr>,
           msgs @ [Box_data_saved], None))"

text \<open>What a completed relational save logs for a dirty row and for an asset id to delete.\<close>

definition row_message :: "save_env \<Rightarrow> int \<Rightarrow> table_log" where
  "row_message env row =
     (if save_ue_asset env row = Succeeds then Info_row_saved row else Warning_row_not_saved row)"

definition delete_message :: "save_env \<Rightarrow> string \<Rightarrow> table_log" where
  "delete_message env asset_id =
     (if delete_asset env asset_id = Succeeds then Info_asset_deleted asset_id
      else Warning_asset_not_deleted asset_id)"

text \<open>A sample: row 3 fails with a caught exception, row 12 is not found, the file write fails.\<close>

definition demo_save_env :: save_env where
  "demo_save_env =
     \<lparr> to_csv_raises = True, row_found = (\<lambda>row. row < 10),
       save_ue_asset = (\<lambda>row. if row = 3 then Raises_caught else Succeeds),
       delete_asset = (\<lambda>a. Succeeds) \<rparr>"

definition demo_dirty_table :: table where
  "demo_dirty_table =
     (new_table SQLITE 36)\<lparr>changed_rows := [2, 3, 12, 4], deleted_asset_ids := [''A1''],
                            must_save := True\<rparr>"

text \<open>
  A second sample, where saving row 3 raises an exception that the loop does not catch,
  and the predicate saying that some row or delete of a relational save does so.
\<close>

definition demo_save_env_abort :: save_env where
  "demo_save_env_abort =
     \<lparr> to_csv_raises = False, row_found = (\<lambda>row. row < 10),
       save_ue_asset = (\<lambda>row. if row = 3 then Raises_uncaught else Succeeds),
       delete_asset = (\<lambda>a. Succeeds) \<rparr>"

definition uncaught_failure :: "save_env \<Rightarrow> table \<Rightarrow> bool" where
  "uncaught_failure env t \<longleftrightarrow>
     (\<exists>row \<in> set (changed_rows t). row_found env row \<and> save_ue_asset env row = Raises_uncaught) \<or>
     (\<exists>a \<in> set (deleted_asset_ids t). delete_asset env a = Raises_uncaught)"

section \<open>list_assets: merging the catalog data with the existing CSV file\<close>

subsection \<open>Values, rows and the field table\<close>

text \<open>
  The values of an asset record built by \<open>create_asset_from_data\<close> (cli.py, lines 194-289)
  are strings, booleans, integers and floats. The float type is a parameter \<open>'f\<close>: no
  property of floating-point arithmetic is used.
\<close>

datatype 'f pyval = PNone | PStr string | PBool bool | PInt int | PFloat 'f

text \<open>
  A row of the existing file, as \<open>csv.DictReader\<close> yields it (lines 601-607): a dictionary
  from column names to cells, where a cell is a string, or \<open>None\<close> for a column that a
  short line does not reach (a line longer than the header adds one key more, which is
  no field name). Dictionaries are association lists read with \<open>map_of\<close>; \<open>dict_len\<close>
  counts the keys.
\<close>

type_synonym csv_row = "(string \<times> string option) list"

definition dict_len :: "('k \<times> 'v) list \<Rightarrow> nat" where
  "dict_len d = length (remdups (map fst d))"

definition row_get :: "csv_row \<Rightarrow> string \<Rightarrow> string option" where
  "row_get item_in_file csv_field =
     (case map_of item_in_file csv_field of Some (Some v) \<Rightarrow> Some v | _ \<Rightarrow> None)"

text \<open>
  The field table \<open>csv_sql_fields\<close>, the helpers \<open>str_is_bool\<close>, \<open>str_to_bool\<close> and
  \<open>convert_to_float\<close>, and the setting \<open>gui_g.s.empty_cell\<close> are defined in modules
  (\<open>models/csv_sql_fields.py\<close>, \<open>utils/cli.py\<close>, \<open>tkgui/modules/functions_no_deps.py\<close>,
  \<open>tkgui/modules/globals.py\<close>) whose code is not part of this development. The merge
  takes them as parameters: \<open>csv_field_names\<close> is the list that \<open>get_csv_field_name_list()\<close>
  returns, \<open>is_preserved\<close> tells whether a field keeps the value of the file.
  \<open>convert_to_float\<close> is taken as total (it is called outside any \<open>try\<close>).
\<close>

record 'f merge_env =
  csv_field_names :: "string list"
  is_preserved :: "string \<Rightarrow> bool"
  empty_cell :: string
  str_is_bool :: "string \<Rightarrow> bool"
  str_to_bool :: "string \<Rightarrow> bool"
  convert_to_float :: "'f pyval \<Rightarrow> 'f"

subsection \<open>Splitting and joining\<close>

text \<open>Python's \<open>s.split(',')\<close> and \<open>','.join(xs)\<close>, for any separator.\<close>

fun split_on :: "char \<Rightarrow> string \<Rightarrow> string list" where
  "split_on c [] = [[]]"
| "split_on c (x # xs) =
     (if x = c then [] # split_on c xs
      else (case split_on c xs of [] \<Rightarrow> [[x]] | w # ws \<Rightarrow> (x # w) # ws))"

fun join_with :: "string \<Rightarrow> string list \<Rightarrow> string" where
  "join_with sep [] = []"
| "join_with sep [w] = w"
| "join_with sep (w # v # ws) = w @ sep @ join_with sep (v # ws)"

subsection \<open>update_and_merge_csv_record_data\<close>

datatype merge_log =
    Error_field_count string
  | Warning_no_column string string

text \<open>The local variables of the loop (lines 408-410) and what has been logged.\<close>

record 'f merge_state =
  csv_record :: "'f pyval list"
  price_index :: nat
  price :: 'f
  old_price :: 'f
  merge_logs :: "merge_log list"

text \<open>
  Lines 424-438: the two fields with a treatment of their own. For \<open>Origin\<close> the value of
  the record is appended to the folders of the file unless it is one of them; a value
  that is not a string is never equal to a folder, is appended, and makes \<open>','.join\<close>
  raise \<open>TypeError\<close>.
\<close>

definition merge_special :: "'f merge_env \<Rightarrow> nat \<Rightarrow> string \<Rightarrow> string \<Rightarrow> 'f merge_state \<Rightarrow> py_error + 'f merge_state" where
  "merge_special env index csv_field v st =
     (if csv_field = ''Price'' then
        (case list_get (csv_record st) index of
           Inl e \<Rightarrow> Inl e
         | Inr x \<Rightarrow> Inr (st\<lparr>price_index := index, price := convert_to_float env x,
                             old_price := convert_to_float env (PStr v)\<rparr>))
      else if csv_field = ''Origin'' then
        (case list_get (csv_record st) index of
           Inl e \<Rightarrow> Inl e
         | Inr (PStr s) \<Rightarrow>
             (let folder_list = split_on CHR '','' v;
                  folder_list = (if s \<notin> set folder_list then folder_list @ [s] else folder_list)
              in Inr (st\<lparr>csv_record := (csv_record st)[index := PStr (join_with '','' folder_list)]\<rparr>))
         | Inr _ \<Rightarrow> Inl TypeError)
      else Inr st)"

text \<open>Line 441: a preserved value is kept as a boolean when its text is a boolean literal.\<close>

definition kept_value :: "'f merge_env \<Rightarrow> string \<Rightarrow> 'f pyval" where
  "kept_value env v = (if str_is_bool env v then PBool (str_to_bool env v) else PStr v)"

text \<open>One turn of the loop over the field names (lines 411-441).\<close>

definition merge_field :: "'f merge_env \<Rightarrow> string \<Rightarrow> csv_row \<Rightarrow> nat \<Rightarrow> string \<Rightarrow> 'f merge_state \<Rightarrow> py_error + 'f merge_state" where
  "merge_field env asset_id item_in_file index csv_field st =
     (case row_get item_in_file csv_field of
        None \<Rightarrow> Inr (st\<lparr>merge_logs := merge_logs st @ [Warning_no_column asset_id csv_field]\<rparr>)
      | Some v \<Rightarrow>
          if v = empty_cell env then
            (case list_set (csv_record st) index (PStr []) of
               Inl e \<Rightarrow> Inl e
             | Inr r \<Rightarrow> Inr (st\<lparr>csv_record := r\<rparr>))
          else
            (case merge_special env index csv_field v st of
               Inl e \<Rightarrow> Inl e
             | Inr st1 \<Rightarrow>
                 if is_preserved env csv_field then
                   (case list_set (csv_record st1) index (kept_value env v) of
                      Inl e \<Rightarrow> Inl e
                    | Inr r \<Rightarrow> Inr (st1\<lparr>csv_record := r\<rparr>))
                 else Inr st1))"

fun merge_fields :: "'f merge_env \<Rightarrow> string \<Rightarrow> csv_row \<Rightarrow> (nat \<times> string) list \<Rightarrow> 'f merge_state \<Rightarrow> py_error + 'f merge_state" where
  "merge_fields env asset_id item_in_file [] st = Inr st"
| "merge_fields env asset_id item_in_file ((index, csv_field) # rest) st =
     (case merge_field env asset_id item_in_file index csv_field st of
        Inl e \<Rightarrow> Inl e
      | Inr st1 \<Rightarrow> merge_fields env asset_id item_in_file rest st1)"

text \<open>
  The function (lines 385-448). \<open>asset_data\<close> is the record of the asset, a dictionary in
  field order, of which only the values are used; \<open>items_in_file\<close> maps the asset ids of
  the file to their rows; \<open>no_data_value\<close> is \<open>float(_no_data_value)\<close>. A dictionary is
  true when it is not empty, so \<open>_items_in_file.get(_asset_id)\<close> holds for a row that
  exists and has a key. The result is the list to write and the log.
\<close>

definition update_and_merge_csv_record_data ::
  "'f merge_env \<Rightarrow> string \<Rightarrow> (string \<times> 'f pyval) list \<Rightarrow> (string \<times> csv_row) list \<Rightarrow> 'f \<Rightarrow>
   py_error + ('f pyval list \<times> merge_log list)" where
  "update_and_merge_csv_record_data env asset_id asset_data items_in_file no_data_value =
     (let csv_fields_count = length (csv_field_names env);
          csv_record0 = map snd asset_data
      in case map_of items_in_file asset_id of
           None \<Rightarrow> Inr (csv_record0, [])
         | Some item_in_file \<Rightarrow>
             if item_in_file = [] then Inr (csv_record0, [])
             else if dict_len item_in_file \<noteq> csv_fields_count then
               Inr (csv_record0, [Error_field_count asset_id])
             else
               (case merge_fields env asset_id item_in_file
                       (enumerate 0 (csv_field_names env))
                       \<lparr>csv_record = csv_record0, price_index = 0, price = no_data_value,
                        old_price = no_data_value, merge_logs = []\<rparr> of
                  Inl e \<Rightarrow> Inl e
                | Inr st \<Rightarrow>
                    if price_index st > 0 then
                      (case list_set (csv_record st) (price_index st + 1) (PFloat (old_price st)) of
                         Inl e \<Rightarrow> Inl e
                       | Inr r \<Rightarrow> Inr (r, merge_logs st))
                    else Inr (csv_record st, merge_logs st)))"

text \<open>
  The call site in \<open>list_assets\<close> (lines 634-637): without any row in the file the record
  is written as it is.
\<close>

definition csv_record_merged ::
  "'f merge_env \<Rightarrow> string \<Rightarrow> (string \<times> 'f pyval) list \<Rightarrow> (string \<times> csv_row) list \<Rightarrow> 'f \<Rightarrow>
   py_error + ('f pyval list \<times> merge_log list)" where
  "csv_record_merged env asset_id asset_data assets_in_file no_data_value =
     (if length assets_in_file > 0
      then update_and_merge_csv_record_data env asset_id asset_data assets_in_file no_data_value
      else Inr (map snd asset_data, []))"

subsection \<open>What the merge computes, field by field\<close>

text \<open>
  The loop treats each field on its own, apart from the two price variables. The next
  definitions name the value that a turn of the loop leaves at the position of a field,
  and the price that the loop captures; the proofs relate them to the loop above.
\<close>

definition is_text :: "'f pyval \<Rightarrow> bool" where
  "is_text x = (case x of PStr s \<Rightarrow> True | _ \<Rightarrow> False)"

definition union_folders :: "string \<Rightarrow> string \<Rightarrow> string list" where
  "union_folders v s =
     (let folder_list = split_on CHR '','' v
      in if s \<notin> set folder_list then folder_list @ [s] else folder_list)"

definition merged_cell :: "'f merge_env \<Rightarrow> csv_row \<Rightarrow> string \<Rightarrow> 'f pyval \<Rightarrow> 'f pyval" where
  "merged_cell env item_in_file csv_field x =
     (case row_get item_in_file csv_field of
        None \<Rightarrow> x
      | Some v \<Rightarrow>
          if v = empty_cell env then PStr []
          else if is_preserved env csv_field then kept_value env v
          else if csv_field = ''Origin'' then
            (case x of PStr s \<Rightarrow> PStr (join_with '','' (union_folders v s)) | _ \<Rightarrow> x)
          else x)"

definition price_captured :: "'f merge_env \<Rightarrow> csv_row \<Rightarrow> bool" where
  "price_captured env item_in_file =
     (case row_get item_in_file ''Price'' of Some v \<Rightarrow> v \<noteq> empty_cell env | None \<Rightarrow> False)"

definition captured_price :: "'f merge_env \<Rightarrow> csv_row \<Rightarrow> 'f" where
  "captured_price env item_in_file =
     (case row_get item_in_file ''Price'' of
        Some v \<Rightarrow> convert_to_float env (PStr v)
      | None \<Rightarrow> convert_to_float env PNone)"

text \<open>
  The position that receives the captured price after the loop (lines 443-444): the one
  after \<open>Price\<close>, when a price was captured at a position other than the first.
\<close>

definition old_price_slot :: "'f merge_env \<Rightarrow> csv_row \<Rightarrow> nat \<Rightarrow> bool" where
  "old_price_slot env item_in_file j \<longleftrightarrow>
     price_captured env item_in_file \<and> 2 \<le> j \<and> csv_field_names env ! (j - 1) = ''Price''"

subsection \<open>Well-formed inputs of the merge\<close>

text \<open>
  What the merge relies on, spelled out. The field names are distinct and \<open>Old price\<close>
  directly follows \<open>Price\<close>, which is not the first field: this is the order in which
  \<open>create_asset_from_data\<close> lists the values (lines 248-283), and the merge writes the old
  price at the position after \<open>Price\<close> when that position is not 0.
\<close>

definition schema_ok :: "'f merge_env \<Rightarrow> bool" where
  "schema_ok env \<longleftrightarrow>
     distinct (csv_field_names env) \<and>
     (\<forall>i<length (csv_field_names env). csv_field_names env ! i = ''Price'' \<longrightarrow>
        0 < i \<and> Suc i < length (csv_field_names env) \<and>
        csv_field_names env ! Suc i = ''Old price'')"

text \<open>
  The record of the asset has one value per field and its \<open>Origin\<close> is a string
  (\<open>create_asset_from_data\<close> zips the field names with the values and sets the origin to
  \<open>'Marketplace'\<close>).
\<close>

definition incoming_ok :: "'f merge_env \<Rightarrow> (string \<times> 'f pyval) list \<Rightarrow> bool" where
  "incoming_ok env asset_data \<longleftrightarrow>
     length asset_data = length (csv_field_names env) \<and>
     (\<forall>i<length (csv_field_names env).
        csv_field_names env ! i = ''Origin'' \<longrightarrow> is_text (snd (asset_data ! i)))"

text \<open>
  The asset id has a row in the file, with as many keys as there are fields. A row read
  by \<open>csv.DictReader\<close> is never an empty dictionary.
\<close>

definition existing_row :: "'f merge_env \<Rightarrow> (string \<times> csv_row) list \<Rightarrow> string \<Rightarrow> csv_row \<Rightarrow> bool" where
  "existing_row env items_in_file asset_id item_in_file \<longleftrightarrow>
     map_of items_in_file asset_id = Some item_in_file \<and> item_in_file \<noteq> [] \<and>
     dict_len item_in_file = length (csv_field_names env)"

subsection \<open>A sample field table\<close>

text \<open>
  Sample values for the parameters, used to run the merge on concrete rows: a short
  field list in the order of the real one, two user fields that are preserved, the
  text \<open>None\<close> as the empty cell, \<open>True\<close> and \<open>False\<close> as the boolean literals, and a reader
  of unsigned decimal numerals that answers 0 for any other text.
\<close>

definition digit_of :: "char \<Rightarrow> nat option" where
  "digit_of c = (if CHR ''0'' \<le> c \<and> c \<le> CHR ''9'' then Some (of_char c - 48) else None)"

fun read_digits :: "string \<Rightarrow> nat \<Rightarrow> nat option" where
  "read_digits [] acc = Some acc"
| "read_digits (c # cs) acc =
     (case digit_of c of None \<Rightarrow> None | Some d \<Rightarrow> read_digits cs (10 * acc + d))"

definition read_decimal :: "string \<Rightarrow> rat" where
  "read_decimal s =
     (case split_on CHR ''.'' s of
        [a] \<Rightarrow> (case read_digits a 0 of Some n \<Rightarrow> of_nat n | None \<Rightarrow> 0)
      | [a, b] \<Rightarrow>
          (case (read_digits a 0, read_digits b 0) of
             (Some n, Some m) \<Rightarrow> of_nat n + of_nat m / 10 ^ length b
           | _ \<Rightarrow> 0)
      | _ \<Rightarrow> 0)"

definition sample_convert_to_float :: "rat pyval \<Rightarrow> rat" where
  "sample_convert_to_float x =
     (case x of PStr s \<Rightarrow> read_decimal s | PFloat q \<Rightarrow> q | PInt i \<Rightarrow> of_int i | _ \<Rightarrow> 0)"

definition sample_env :: "rat merge_env" where
  "sample_env =
     \<lparr> csv_field_names =
         [''Asset_id'', ''Developer'', ''Price'', ''Old price'', ''Comment'', ''Must buy'', ''Origin''],
       is_preserved = (\<lambda>f. f = ''Comment'' \<or> f = ''Must buy''),
       empty_cell = ''None'',
       str_is_bool = (\<lambda>s. s = ''True'' \<or> s = ''False''),
       str_to_bool = (\<lambda>s. s = ''True''),
       convert_to_float = sample_convert_to_float \<rparr>"

text \<open>The record of a freshly scraped asset, and rows of the file for it.\<close>

definition sample_asset :: "(string \<times> rat pyval) list" where
  "sample_asset =
     [(''Asset_id'', PStr ''A1''), (''Developer'', PStr ''Epic''), (''Price'', PFloat 8),
      (''Old price'', PFloat 0), (''Comment'', PStr []), (''Must buy'', PBool False),
      (''Origin'', PStr ''Marketplace'')]"

definition sample_row :: csv_row where
  "sample_row =
     [(''Asset_id'', Some ''A1''), (''Developer'', Some ''Epic Games''), (''Price'', Some ''10.0''),
      (''Old price'', Some ''12.5''), (''Comment'', Some ''nice''), (''Must buy'', Some ''True''),
      (''Origin'', Some ''folderX'')]"


definition sample_row_empty_origin :: csv_row where
  "sample_row_empty_origin =
     [(''Asset_id'', Some ''A1''), (''Developer'', Some ''Epic Games''), (''Price'', Some ''10.0''),
      (''Old price'', Some ''12.5''), (''Comment'', Some ''nice''), (''Must buy'', Some ''True''),
      (''Origin'', Some ''None'')]"


subsection \<open>The merge pass over the catalog items\<close>

text \<open>
  What \<open>list_assets\<close> reads of a catalog item (lines 563, 576-579): its \<open>app_name\<close>, its
  \<open>app_title\<close>, and the asset id of its Windows asset information when it has one.
\<close>

record item =
  app_name :: string
  app_title :: string
  windows_asset_id :: "string option"

text \<open>Lines 576-579: the asset id of an item, or its title when it has no asset information.\<close>

definition asset_id_of :: "item \<Rightarrow> string" where
  "asset_id_of it = (case windows_asset_id it of Some a \<Rightarrow> a | None \<Rightarrow> app_title it)"

text \<open>
  Line 563: \<open>sorted(items, key=lambda x: x.app_name.lower(), reverse=True)\<close>. Python's
  sort is stable and \<open>reverse=True\<close> keeps the original order of items with equal keys:
  the list is reversed, sorted in ascending order, and reversed again. \<open>lower\<close> stands for
  \<open>str.lower\<close>; strings are compared lexicographically, character by character.
\<close>

definition sorted_items :: "(string \<Rightarrow> string) \<Rightarrow> item list \<Rightarrow> item list" where
  "sorted_items lower items = rev (sort_key (\<lambda>x. lower (app_name x)) (rev items))"

text \<open>A dictionary looked up with \<open>.get\<close> is true when it exists and is not empty.\<close>

definition dict_truthy :: "('k \<times> 'v) list option \<Rightarrow> bool" where
  "dict_truthy d = (case d of None \<Rightarrow> False | Some r \<Rightarrow> r \<noteq> [])"

text \<open>
  Lines 567-587. \<open>create_asset\<close> stands for \<open>create_asset_from_data\<close>, which returns the
  asset id it was given together with the record; the record is built from the metadata
  of the item, from the extras stored on disk and from the clock, and it is the empty
  dictionary when building it raised \<open>TypeError\<close> (lines 285-289). The dictionary
  \<open>assets_to_output\<close> is an association list in insertion order. The progress window,
  which can stop the loop, belongs to the GUI and is left out.
\<close>

fun merge_pass ::
  "(item \<Rightarrow> string \<Rightarrow> (string \<times> 'v) list) \<Rightarrow> item list \<Rightarrow>
   (string \<times> (string \<times> 'v) list) list \<Rightarrow> (string \<times> (string \<times> 'v) list) list" where
  "merge_pass create_asset [] assets_to_output = assets_to_output"
| "merge_pass create_asset (it # items) assets_to_output =
     (let asset_id = asset_id_of it
      in if dict_truthy (map_of assets_to_output asset_id)
         then merge_pass create_asset items assets_to_output
         else merge_pass create_asset items
                (AList.update asset_id (create_asset it asset_id) assets_to_output))"

definition list_assets_merge ::
  "(string \<Rightarrow> string) \<Rightarrow> (item \<Rightarrow> string \<Rightarrow> (string \<times> 'v) list) \<Rightarrow> item list \<Rightarrow>
   (string \<times> (string \<times> 'v) list) list" where
  "list_assets_merge lower create_asset items =
     merge_pass create_asset (sorted_items lower items) []"

text \<open>A sample batch: two versions of one asset and an item without asset information.\<close>

definition lower_char :: "char \<Rightarrow> char" where
  "lower_char c = (if CHR ''A'' \<le> c \<and> c \<le> CHR ''Z'' then char_of (of_char c + (32 :: nat)) else c)"

definition ascii_lower :: "string \<Rightarrow> string" where
  "ascii_lower s = map lower_char s"

definition sample_create :: "item \<Rightarrow> string \<Rightarrow> (string \<times> string) list" where
  "sample_create it asset_id = [(''Asset_id'', asset_id), (''App name'', app_name it)]"

definition sample_items :: "item list" where
  "sample_items =
     [\<lparr>app_name = ''Pack_5.0'', app_title = ''Pack'', windows_asset_id = Some ''P1''\<rparr>,
      \<lparr>app_name = ''pack_5.1'', app_title = ''Pack'', windows_asset_id = Some ''P1''\<rparr>,
      \<lparr>app_name = ''Tool'', app_title = ''Tool'', windows_asset_id = None\<rparr>]"

subsection \<open>Writing the merged record and merging again\<close>

text \<open>Python's \<open>str\<close> of an integer.\<close>

definition digit_char :: "nat \<Rightarrow> char" where
  "digit_char n = char_of (48 + n)"

fun show_nat :: "nat \<Rightarrow> string" where
  "show_nat n = (if n < 10 then [digit_char n] else show_nat (n div 10) @ [digit_char (n mod 10)])"

definition str_of_int :: "int \<Rightarrow> string" where
  "str_of_int i = (if i < 0 then CHR ''-'' # show_nat (nat (- i)) else show_nat (nat i))"

text \<open>
  What \<open>csv.writer\<close> writes for a value (line 639): nothing for \<open>None\<close>, a string as it is,
  \<open>str\<close> of anything else. The text of a float is a parameter.
\<close>

definition csv_text :: "('f \<Rightarrow> string) \<Rightarrow> 'f pyval \<Rightarrow> string" where
  "csv_text float_repr x =
     (case x of
        PNone \<Rightarrow> []
      | PStr s \<Rightarrow> s
      | PBool b \<Rightarrow> (if b then ''True'' else ''False'')
      | PInt i \<Rightarrow> str_of_int i
      | PFloat q \<Rightarrow> float_repr q)"

text \<open>
  The file is read back in text mode without \<open>newline=''\<close> (line 601), so a carriage
  return in a cell, alone or followed by a line feed, comes back as one line feed. (The
  writer quotes such a cell, and quoting is undone by the reader.)
\<close>

fun universal_newlines :: "string \<Rightarrow> string" where
  "universal_newlines [] = []"
| "universal_newlines [c] = (if c = CHR 0x0D then [CHR 0x0A] else [c])"
| "universal_newlines (c # d # cs) =
     (if c = CHR 0x0D then
        (if d = CHR 0x0A then CHR 0x0A # universal_newlines cs
         else CHR 0x0A # universal_newlines (d # cs))
      else c # universal_newlines (d # cs))"

text \<open>
  The row that \<open>csv.DictReader\<close> reads back for a record written under the header
  \<open>get_csv_field_name_list()\<close> (line 616): the field names with the texts of the values
  as they are read.
\<close>

definition written_row :: "'f merge_env \<Rightarrow> ('f \<Rightarrow> string) \<Rightarrow> 'f pyval list \<Rightarrow> csv_row" where
  "written_row env float_repr r =
     zip (csv_field_names env) (map (\<lambda>x. Some (universal_newlines (csv_text float_repr x))) r)"

text \<open>
  A second run of the merge with the same incoming record, on the file that the first
  run wrote.
\<close>

definition merge_again ::
  "'f merge_env \<Rightarrow> ('f \<Rightarrow> string) \<Rightarrow> string \<Rightarrow> (string \<times> 'f pyval) list \<Rightarrow>
   (string \<times> csv_row) list \<Rightarrow> 'f \<Rightarrow> py_error + ('f pyval list \<times> merge_log list)" where
  "merge_again env float_repr asset_id asset_data items_in_file no_data_value =
     (case update_and_merge_csv_record_data env asset_id asset_data items_in_file no_data_value of
        Inl e \<Rightarrow> Inl e
      | Inr (r, logs) \<Rightarrow>
          update_and_merge_csv_record_data env asset_id asset_data
            [(asset_id, written_row env float_repr r)] no_data_value)"

text \<open>A sample text of floats: non-negative values with one decimal digit.\<close>

definition sample_float_repr :: "rat \<Rightarrow> string" where
  "sample_float_repr q =
     show_nat (nat \<lfloor>q\<rfloor>) @ ''.'' @ show_nat (nat \<lfloor>10 * (q - of_int \<lfloor>q\<rfloor>)\<rfloor>)"


section \<open>Tracking: proofs\<close>

lemma tracking_ok_track: "tracking_ok t \<Longrightarrow> tracking_ok (track c t)"
  by (cases c) (auto simp: tracking_ok_def add_to_rows_to_save_def add_to_asset_ids_to_delete_def)

lemma tracking_ok_foldl: "tracking_ok t \<Longrightarrow> tracking_ok (foldl (\<lambda>s c. track c s) t calls)"
  by (induction calls arbitrary: t) (simp_all add: tracking_ok_track)

text \<open>
  C10. Starting from a table whose dirty-row list and deleted-id list are duplicate-free and
  hold no negative row index (a new table, or one just cleared), any sequence of
  \<open>add_to_rows_to_save\<close> and \<open>add_to_asset_ids_to_delete\<close> calls leaves the dirty-row list
  without duplicates and without negative indices and the deleted-id list without
  duplicates.
\<close>

theorem tracking_invariant:
  "tracking_ok t \<Longrightarrow> tracking_ok (track_all calls t)"
  unfolding track_all_def by (rule tracking_ok_foldl)

theorem tracking_invariant_witness:
  "tracking_ok (new_table SQLITE 36) \<and>
   tracking_ok (track_all [Add_row 5 2, Add_row 5 (- 1), Add_delete ''A1'', Add_row 5 2,
                           Add_delete ''A1'', Add_row 5 4] (new_table SQLITE 36)) \<and>
   changed_rows (track_all [Add_row 5 2, Add_row 5 (- 1), Add_delete ''A1'', Add_row 5 2,
                           Add_delete ''A1'', Add_row 5 4] (new_table SQLITE 36)) = [2, 4]"
proof -
  have h: "tracking_ok (new_table SQLITE 36)"
    by (simp add: tracking_ok_def new_table_def)
  have "changed_rows (track_all [Add_row 5 2, Add_row 5 (- 1), Add_delete ''A1'', Add_row 5 2,
                           Add_delete ''A1'', Add_row 5 4] (new_table SQLITE 36)) = [2, 4]"
    by (simp add: track_all_def new_table_def add_to_rows_to_save_def
        add_to_asset_ids_to_delete_def)
  with h tracking_invariant [OF h] show ?thesis by simp
qed

section \<open>Pagination: proofs\<close>

lemma ceil_pages:
  assumes r: "0 < (r::int)"
  shows "(n - 1) div r + 1 = \<lceil>real_of_int n / real_of_int r\<rceil>"
proof -
  define q where "q = (n - 1) div r"
  define m where "m = (n - 1) mod r"
  have m: "0 \<le> m" "m < r" using r by (simp_all add: m_def)
  have n: "n = q * r + m + 1"
    unfolding q_def m_def by simp
  have lo: "q * r < n" using n m by linarith
  have hi: "n \<le> (q + 1) * r" using n m by (simp add: algebra_simps)
  have rr: "0 < real_of_int r" using r by simp
  have "real_of_int (q * r) < real_of_int n" using lo by (simp only: of_int_less_iff)
  then have 1: "real_of_int (q + 1) - 1 < real_of_int n / real_of_int r"
    using rr by (simp add: pos_less_divide_eq)
  have "real_of_int n \<le> real_of_int ((q + 1) * r)" using hi by (simp only: of_int_le_iff)
  then have 2: "real_of_int n / real_of_int r \<le> real_of_int (q + 1)"
    using rr by (simp add: pos_divide_le_eq)
  have "\<lceil>real_of_int n / real_of_int r\<rceil> = q + 1"
    using 1 2 by (rule ceiling_unique)
  then show ?thesis by (simp add: q_def)
qed

lemma update_page_enabled:
  assumes "0 < rows_per_page t" "pagination_enabled t"
  shows "update_page t =
    Inr (t\<lparr>total_pages := \<lceil>real (filtered_count t) / real_of_int (rows_per_page t)\<rceil>\<rparr>)"
  using assms ceil_pages [of "rows_per_page t" "int (filtered_count t)"]
  by (simp add: update_page_def)

lemma update_enabled:
  assumes "0 < rows_per_page t" "pagination_enabled t"
  shows "update b kept t =
    Inr (t\<lparr>current_page := (if b then 1 else current_page t), filtered_count := kept,
           total_pages := \<lceil>real kept / real_of_int (rows_per_page t)\<rceil>\<rparr>)"
  using assms by (simp add: update_def update_page_enabled)

text \<open>
  C8. The page count is the ceiling of the filtered row count over the page size after
  every update, but the current page is not kept within the pages: the only statement
  that would bring it back (lines 668-669) sits in an \<open>except IndexError\<close> branch that
  the slice never enters. A table of 100 rows is loaded, displayed and moved to its last
  page, 3 of 3; then the filter keeps 10 rows. Redisplaying gives page 3 of 1, and going
  to the previous page gives page 2 of 1.
\<close>

theorem pagination_bounds_broken:
  "load_data FILE True 100 (new_table FILE 36) =
     Inr (True, (new_table FILE 36)\<lparr>data_count := 100, total_pages := 3\<rparr>) \<and>
   update False 100 ((new_table FILE 36)\<lparr>data_count := 100, total_pages := 3\<rparr>) =
     Inr ((new_table FILE 36)\<lparr>data_count := 100, filtered_count := 100, total_pages := 3\<rparr>) \<and>
   last_page 100 ((new_table FILE 36)\<lparr>data_count := 100, filtered_count := 100, total_pages := 3\<rparr>) =
     Inr paged_table \<and>
   page_count_ok paged_table \<and> current_page_ok paged_table \<and>
   0 < rows_per_page paged_table \<and> pagination_enabled paged_table \<and>
   update False 10 paged_table =
     Inr (paged_table\<lparr>filtered_count := 10, total_pages := 1\<rparr>) \<and>
   prev_page 10 paged_table =
     Inr (paged_table\<lparr>current_page := 2, filtered_count := 10, total_pages := 1\<rparr>) \<and>
   page_count_ok (paged_table\<lparr>filtered_count := 10, total_pages := 1\<rparr>) \<and>
   \<not> current_page_ok (paged_table\<lparr>filtered_count := 10, total_pages := 1\<rparr>) \<and>
   \<not> current_page_ok (paged_table\<lparr>current_page := 2, filtered_count := 10, total_pages := 1\<rparr>)"
  by (simp add: load_data_def valid_source_type_def update_def update_page_def last_page_def
      prev_page_def new_table_def paged_table_def page_count_ok_def current_page_ok_def)

section \<open>Saving: proofs\<close>

lemma save_changed_rows_handled:
  "\<forall>row \<in> set rows. row_found env row \<longrightarrow> save_ue_asset env row \<noteq> Raises_uncaught \<Longrightarrow>
   save_changed_rows env rows = (map (row_message env) (filter (row_found env) rows), None)"
  by (induction rows) (auto simp: logged_def row_message_def split: outcome.splits)

lemma delete_assets_handled:
  "\<forall>a \<in> set ids. delete_asset env a \<noteq> Raises_uncaught \<Longrightarrow>
   delete_assets env ids = (map (delete_message env) ids, None)"
  by (induction ids) (auto simp: logged_def delete_message_def split: outcome.splits)

lemma save_data_result:
  "snd (snd (save_data src env t)) = None \<Longrightarrow>
     fst (save_data src env t) = t\<lparr>changed_rows := [], deleted_asset_ids := [], must_save := False\<rparr>"
  "snd (snd (save_data src env t)) \<noteq> None \<Longrightarrow> fst (save_data src env t) = t"
  by (auto simp: save_data_def clear_rows_to_save_def clear_asset_ids_to_delete_def
      split: prod.splits option.splits)

lemma save_changed_rows_end:
  "snd (save_changed_rows env rows) =
     (if \<exists>row \<in> set rows. row_found env row \<and> save_ue_asset env row = Raises_uncaught
      then Some Uncaught else None)"
  by (induction rows) (auto simp: logged_def split: outcome.splits)

lemma delete_assets_end:
  "snd (delete_assets env ids) =
     (if \<exists>a \<in> set ids. delete_asset env a = Raises_uncaught then Some Uncaught else None)"
  by (induction ids) (auto simp: logged_def split: outcome.splits)

lemma write_source_sqlite_end:
  "snd (write_source SQLITE env t) = (if uncaught_failure env t then Some Uncaught else None)"
proof -
  obtain m1 r1 where s1: "save_changed_rows env (changed_rows t) = (m1, r1)" by force
  obtain m2 r2 where s2: "delete_assets env (deleted_asset_ids t) = (m2, r2)" by force
  from s1 save_changed_rows_end [of env "changed_rows t"]
  have r1: "r1 = (if \<exists>row \<in> set (changed_rows t). row_found env row \<and> save_ue_asset env row = Raises_uncaught
      then Some Uncaught else None)" by simp
  from s2 delete_assets_end [of env "deleted_asset_ids t"]
  have r2: "r2 = (if \<exists>a \<in> set (deleted_asset_ids t). delete_asset env a = Raises_uncaught then Some Uncaught else None)"
    by simp
  show ?thesis
    using s1 s2 r1 r2 by (auto simp: write_source_def uncaught_failure_def split: option.splits)
qed

text \<open>
  C9, as stated, fails for a per-row failure that is not one of the three caught
  exceptions: the save stops at row 3, rows 12 and 4 and the delete are not attempted,
  and row 2, which was saved, stays in the dirty list.
\<close>

theorem save_clearing_counterexample:
  "source_type demo_dirty_table = SQLITE \<and>
   changed_rows demo_dirty_table = [2, 3, 12, 4] \<and>
   save_ue_asset demo_save_env_abort 2 = Succeeds \<and>
   save_ue_asset demo_save_env_abort 3 = Raises_uncaught \<and>
   save_data None demo_save_env_abort demo_dirty_table =
     (demo_dirty_table, [Info_row_saved 2], Some Uncaught)"
  by (simp add: save_data_def write_source_def demo_dirty_table_def demo_save_env_abort_def
      new_table_def logged_def)

text \<open>
  C9, amended. \<open>save_data\<close> clears the dirty-row list, the delete list and \<open>must_save\<close>
  exactly when the call completes, and leaves the table as it was when an exception ends
  it. A flat-file save completes when \<open>to_csv\<close> does not raise, and ends with nothing
  cleared when it raises. A relational save in which every failure of a row or of a delete
  is a \<open>KeyError\<close>, \<open>ValueError\<close> or \<open>AttributeError\<close> completes: each dirty row that
  \<open>get_row\<close> finds is attempted in order and logged as saved or as a warning naming the
  failed row, each asset id is deleted or logged as a warning, and both lists and the
  flag are cleared. Any other exception of a row or of a delete ends the save there with
  nothing cleared, the rows already saved included.
\<close>

theorem save_clearing:
  "(snd (snd (save_data src env t)) = None \<longrightarrow>
      changed_rows (fst (save_data src env t)) = [] \<and>
      deleted_asset_ids (fst (save_data src env t)) = [] \<and>
      \<not> must_save (fst (save_data src env t))) \<and>
   (snd (snd (save_data src env t)) \<noteq> None \<longrightarrow> fst (save_data src env t) = t) \<and>
   ((case src of None \<Rightarrow> source_type t | Some s \<Rightarrow> s) = FILE \<and> to_csv_raises env \<longrightarrow>
      save_data src env t = (t, [], Some Uncaught)) \<and>
   ((case src of None \<Rightarrow> source_type t | Some s \<Rightarrow> s) = FILE \<and> \<not> to_csv_raises env \<longrightarrow>
      save_data src env t =
        (t\<lparr>changed_rows := [], deleted_asset_ids := [], must_save := False\<rparr>,
         [Box_data_saved], None)) \<and>
   ((case src of None \<Rightarrow> source_type t | Some s \<Rightarrow> s) = SQLITE \<and> \<not> uncaught_failure env t \<longrightarrow>
      save_data src env t =
        (t\<lparr>changed_rows := [], deleted_asset_ids := [], must_save := False\<rparr>,
         map (row_message env) (filter (row_found env) (changed_rows t)) @
         map (delete_message env) (deleted_asset_ids t) @ [Box_data_saved],
         None)) \<and>
   ((case src of None \<Rightarrow> source_type t | Some s \<Rightarrow> s) = SQLITE \<and> uncaught_failure env t \<longrightarrow>
      fst (save_data src env t) = t \<and> snd (snd (save_data src env t)) = Some Uncaught)"
proof (intro conjI impI)
  assume "snd (snd (save_data src env t)) = None"
  from save_data_result(1) [OF this]
  show "changed_rows (fst (save_data src env t)) = []"
    "deleted_asset_ids (fst (save_data src env t)) = []"
    "\<not> must_save (fst (save_data src env t))"
    by simp_all
next
  assume "snd (snd (save_data src env t)) \<noteq> None"
  then show "fst (save_data src env t) = t" by (rule save_data_result(2))
next
  assume "(case src of None \<Rightarrow> source_type t | Some s \<Rightarrow> s) = FILE \<and> to_csv_raises env"
  then show "save_data src env t = (t, [], Some Uncaught)"
    by (simp add: save_data_def write_source_def)
next
  assume "(case src of None \<Rightarrow> source_type t | Some s \<Rightarrow> s) = FILE \<and> \<not> to_csv_raises env"
  then show "save_data src env t =
        (t\<lparr>changed_rows := [], deleted_asset_ids := [], must_save := False\<rparr>,
         [Box_data_saved], None)"
    by (simp add: save_data_def write_source_def clear_rows_to_save_def
        clear_asset_ids_to_delete_def)
next
  assume a: "(case src of None \<Rightarrow> source_type t | Some s \<Rightarrow> s) = SQLITE \<and> \<not> uncaught_failure env t"
  then have "\<forall>row \<in> set (changed_rows t). row_found env row \<longrightarrow> save_ue_asset env row \<noteq> Raises_uncaught"
    and "\<forall>a \<in> set (deleted_asset_ids t). delete_asset env a \<noteq> Raises_uncaught"
    by (auto simp: uncaught_failure_def)
  with a show "save_data src env t =
        (t\<lparr>changed_rows := [], deleted_asset_ids := [], must_save := False\<rparr>,
         map (row_message env) (filter (row_found env) (changed_rows t)) @
         map (delete_message env) (deleted_asset_ids t) @ [Box_data_saved],
         None)"
    by (simp add: save_data_def write_source_def save_changed_rows_handled
        delete_assets_handled clear_rows_to_save_def clear_asset_ids_to_delete_def)
next
  assume a: "(case src of None \<Rightarrow> source_type t | Some s \<Rightarrow> s) = SQLITE \<and> uncaught_failure env t"
  then have e: "snd (write_source SQLITE env t) = Some Uncaught"
    by (simp add: write_source_sqlite_end)
  then obtain msgs where w: "write_source SQLITE env t = (msgs, Some Uncaught)"
    by (cases "write_source SQLITE env t") simp
  with a have sd: "save_data src env t = (t, msgs, Some Uncaught)"
    by (simp add: save_data_def)
  then show "fst (save_data src env t) = t" by simp
  from sd show "snd (snd (save_data src env t)) = Some Uncaught" by simp
qed

theorem save_clearing_witness:
  "save_data None demo_save_env demo_dirty_table =
     ((new_table SQLITE 36),
      [Info_row_saved 2, Warning_row_not_saved 3, Info_row_saved 4, Info_asset_deleted ''A1'',
       Box_data_saved], None) \<and>
   save_data (Some FILE) demo_save_env demo_dirty_table = (demo_dirty_table, [], Some Uncaught) \<and>
   save_data (Some FILE) demo_save_env_abort demo_dirty_table =
     ((new_table SQLITE 36), [Box_data_saved], None) \<and>
   fst (save_data None demo_save_env_abort demo_dirty_table) = demo_dirty_table \<and>
   snd (snd (save_data None demo_save_env_abort demo_dirty_table)) = Some Uncaught"
proof -
  have st: "(case None of None \<Rightarrow> source_type demo_dirty_table | Some s \<Rightarrow> s) = SQLITE"
    by (simp add: demo_dirty_table_def new_table_def)
  have s: "\<not> uncaught_failure demo_save_env demo_dirty_table"
    by (simp add: uncaught_failure_def demo_dirty_table_def demo_save_env_def new_table_def)
  have u: "uncaught_failure demo_save_env_abort demo_dirty_table"
    by (simp add: uncaught_failure_def demo_dirty_table_def demo_save_env_abort_def new_table_def)
  have f: "(case Some FILE of None \<Rightarrow> source_type demo_dirty_table | Some s \<Rightarrow> s) = FILE"
    by simp
  have r: "to_csv_raises demo_save_env" "\<not> to_csv_raises demo_save_env_abort"
    by (simp_all add: demo_save_env_def demo_save_env_abort_def)
  from save_clearing [of None demo_save_env demo_dirty_table] st s
  have 1: "save_data None demo_save_env demo_dirty_table =
        (demo_dirty_table\<lparr>changed_rows := [], deleted_asset_ids := [], must_save := False\<rparr>,
         map (row_message demo_save_env) (filter (row_found demo_save_env) (changed_rows demo_dirty_table)) @
         map (delete_message demo_save_env) (deleted_asset_ids demo_dirty_table) @ [Box_data_saved],
         None)"
    by blast
  from save_clearing [of "Some FILE" demo_save_env demo_dirty_table] f r(1)
  have 2: "save_data (Some FILE) demo_save_env demo_dirty_table = (demo_dirty_table, [], Some Uncaught)"
    by blast
  from save_clearing [of "Some FILE" demo_save_env_abort demo_dirty_table] f r(2)
  have 3: "save_data (Some FILE) demo_save_env_abort demo_dirty_table =
        (demo_dirty_table\<lparr>changed_rows := [], deleted_asset_ids := [], must_save := False\<rparr>,
         [Box_data_saved], None)"
    by blast
  from save_clearing [of None demo_save_env_abort demo_dirty_table] st u
  have 4: "fst (save_data None demo_save_env_abort demo_dirty_table) = demo_dirty_table \<and>
     snd (snd (save_data None demo_save_env_abort demo_dirty_table)) = Some Uncaught"
    by blast
  from 1 2 3 4 show ?thesis
    by (simp add: demo_dirty_table_def demo_save_env_def new_table_def row_message_def
        delete_message_def)
qed

section \<open>Merge: proofs\<close>

lemma merge_field_effect:
  assumes "index < length (csv_record st)"
    and "csv_field = ''Origin'' \<longrightarrow> is_text (csv_record st ! index)"
  shows "\<exists>st'. merge_field env asset_id item_in_file index csv_field st = Inr st' \<and>
           csv_record st' = (csv_record st)[index := merged_cell env item_in_file csv_field (csv_record st ! index)] \<and>
           (if csv_field = ''Price'' \<and> price_captured env item_in_file
            then price_index st' = index \<and> old_price st' = captured_price env item_in_file
            else price_index st' = price_index st \<and> old_price st' = old_price st)"
  using assms
  by (auto simp: merge_field_def merge_special_def merged_cell_def list_get_def list_set_def
      price_captured_def captured_price_def is_text_def union_folders_def Let_def
      split: option.splits pyval.splits)


lemma merge_fields_effect:
  assumes "n + length fs \<le> length (csv_record st)"
    and "\<forall>i<length fs. fs ! i = ''Origin'' \<longrightarrow> is_text (csv_record st ! (n + i))"
  shows "\<exists>st'. merge_fields env asset_id item_in_file (enumerate n fs) st = Inr st' \<and>
           length (csv_record st') = length (csv_record st) \<and>
           (\<forall>j<length (csv_record st).
              csv_record st' ! j =
                (if n \<le> j \<and> j < n + length fs
                 then merged_cell env item_in_file (fs ! (j - n)) (csv_record st ! j)
                 else csv_record st ! j)) \<and>
           (if ''Price'' \<in> set fs \<and> price_captured env item_in_file
            then (\<exists>i<length fs. fs ! i = ''Price'' \<and> price_index st' = n + i) \<and>
                 old_price st' = captured_price env item_in_file
            else price_index st' = price_index st \<and> old_price st' = old_price st)"
  using assms
proof (induction fs arbitrary: n st)
  case Nil
  then show ?case by auto
next
  case (Cons f fs)
  have n: "n < length (csv_record st)" using Cons.prems(1) by simp
  have o: "f = ''Origin'' \<longrightarrow> is_text (csv_record st ! n)"
    using Cons.prems(2) by auto
  from merge_field_effect [OF n o, of env asset_id item_in_file]
  obtain st1 where st1: "merge_field env asset_id item_in_file n f st = Inr st1"
    and r1: "csv_record st1 = (csv_record st)[n := merged_cell env item_in_file f (csv_record st ! n)]"
    and p1: "if f = ''Price'' \<and> price_captured env item_in_file
            then price_index st1 = n \<and> old_price st1 = captured_price env item_in_file
            else price_index st1 = price_index st \<and> old_price st1 = old_price st"
    by blast
  have len1: "length (csv_record st1) = length (csv_record st)" using r1 by simp
  have a1: "Suc n + length fs \<le> length (csv_record st1)"
    using Cons.prems(1) len1 by simp
  have a2: "\<forall>i<length fs. fs ! i = ''Origin'' \<longrightarrow> is_text (csv_record st1 ! (Suc n + i))"
  proof (intro allI impI)
    fix i assume i: "i < length fs" and fo: "fs ! i = ''Origin''"
    have "is_text (csv_record st ! (n + Suc i))"
      using Cons.prems(2) i fo by (metis length_Cons nth_Cons_Suc Suc_less_eq)
    then show "is_text (csv_record st1 ! (Suc n + i))"
      using r1 by simp
  qed
  from Cons.IH [OF a1 a2]
  obtain st' where st': "merge_fields env asset_id item_in_file (enumerate (Suc n) fs) st1 = Inr st'"
    and len': "length (csv_record st') = length (csv_record st1)"
    and r': "\<forall>j<length (csv_record st1).
              csv_record st' ! j =
                (if Suc n \<le> j \<and> j < Suc n + length fs
                 then merged_cell env item_in_file (fs ! (j - Suc n)) (csv_record st1 ! j)
                 else csv_record st1 ! j)"
    and p': "if ''Price'' \<in> set fs \<and> price_captured env item_in_file
            then (\<exists>i<length fs. fs ! i = ''Price'' \<and> price_index st' = Suc n + i) \<and>
                 old_price st' = captured_price env item_in_file
            else price_index st' = price_index st1 \<and> old_price st' = old_price st1"
    by blast
  have run: "merge_fields env asset_id item_in_file (enumerate n (f # fs)) st = Inr st'"
    using st1 st' by simp
  have cells: "\<forall>j<length (csv_record st).
              csv_record st' ! j =
                (if n \<le> j \<and> j < n + length (f # fs)
                 then merged_cell env item_in_file ((f # fs) ! (j - n)) (csv_record st ! j)
                 else csv_record st ! j)"
  proof (intro allI impI)
    fix j assume j: "j < length (csv_record st)"
    then have j1: "j < length (csv_record st1)" using len1 by simp
    consider "j < n" | "j = n" | "Suc n \<le> j" by linarith
    then show "csv_record st' ! j =
                (if n \<le> j \<and> j < n + length (f # fs)
                 then merged_cell env item_in_file ((f # fs) ! (j - n)) (csv_record st ! j)
                 else csv_record st ! j)"
    proof cases
      case 1
      then show ?thesis using r' j1 r1 by simp
    next
      case 2
      then show ?thesis using r' j1 r1 j by simp
    next
      case 3
      then have "csv_record st1 ! j = csv_record st ! j" using r1 by simp
      moreover have "(f # fs) ! (j - n) = fs ! (j - Suc n)" using 3 by (simp add: nth_Cons')
      ultimately show ?thesis using r' j1 3 by auto
    qed
  qed
  have price: "if ''Price'' \<in> set (f # fs) \<and> price_captured env item_in_file
            then (\<exists>i<length (f # fs). (f # fs) ! i = ''Price'' \<and> price_index st' = n + i) \<and>
                 old_price st' = captured_price env item_in_file
            else price_index st' = price_index st \<and> old_price st' = old_price st"
  proof (cases "''Price'' \<in> set fs \<and> price_captured env item_in_file")
    case True
    with p' obtain i where i: "i < length fs" "fs ! i = ''Price''" "price_index st' = Suc n + i"
      and op: "old_price st' = captured_price env item_in_file" by auto
    have "Suc i < length (f # fs) \<and> (f # fs) ! Suc i = ''Price'' \<and> price_index st' = n + Suc i"
      using i by simp
    then show ?thesis using True op by auto
  next
    case False
    with p' have eq: "price_index st' = price_index st1" "old_price st' = old_price st1" by auto
    show ?thesis
    proof (cases "f = ''Price'' \<and> price_captured env item_in_file")
      case True
      with p1 eq have "price_index st' = n + 0" "old_price st' = captured_price env item_in_file"
        by auto
      moreover have "0 < length (f # fs) \<and> (f # fs) ! 0 = ''Price''" using True by simp
      ultimately show ?thesis using True by auto
    next
      case F2: False
      with p1 eq have "price_index st' = price_index st" "old_price st' = old_price st" by auto
      then show ?thesis using False F2 by auto
    qed
  qed
  from run len' len1 cells price show ?case by auto
qed

lemma merge_result:
  fixes env :: "'f merge_env"
  assumes d: "distinct (csv_field_names env)"
    and len: "length asset_data = length (csv_field_names env)"
    and row: "map_of items_in_file asset_id = Some item_in_file"
    and ne: "item_in_file \<noteq> []"
    and cnt: "dict_len item_in_file = length (csv_field_names env)"
    and otxt: "\<forall>i<length (csv_field_names env).
                csv_field_names env ! i = ''Origin'' \<longrightarrow> is_text (snd (asset_data ! i))"
    and nl: "\<forall>i<length (csv_field_names env).
                csv_field_names env ! i = ''Price'' \<longrightarrow> Suc i < length (csv_field_names env)"
  shows "\<exists>r logs. update_and_merge_csv_record_data env asset_id asset_data items_in_file nd = Inr (r, logs) \<and>
           length r = length (csv_field_names env) \<and>
           (\<forall>j<length (csv_field_names env).
              r ! j = (if old_price_slot env item_in_file j
                       then PFloat (captured_price env item_in_file)
                       else merged_cell env item_in_file (csv_field_names env ! j) (snd (asset_data ! j))))"
proof -
  let ?fs = "csv_field_names env"
  let ?st = "\<lparr>csv_record = map snd asset_data, price_index = 0, price = nd,
                        old_price = nd, merge_logs = []\<rparr> :: 'f merge_state"
  have a1: "0 + length ?fs \<le> length (csv_record ?st)" using len by simp
  have a2: "\<forall>i<length ?fs. ?fs ! i = ''Origin'' \<longrightarrow> is_text (csv_record ?st ! (0 + i))"
    using otxt len by simp
  from merge_fields_effect [OF a1 a2, of env asset_id item_in_file]
  obtain st' where run: "merge_fields env asset_id item_in_file (enumerate 0 ?fs) ?st = Inr st'"
    and len0: "length (csv_record st') = length (csv_record ?st)"
    and cells0: "\<forall>j<length (csv_record ?st).
              csv_record st' ! j =
                (if 0 \<le> j \<and> j < 0 + length ?fs
                 then merged_cell env item_in_file (?fs ! (j - 0)) (csv_record ?st ! j)
                 else csv_record ?st ! j)"
    and pr0: "if ''Price'' \<in> set ?fs \<and> price_captured env item_in_file
            then (\<exists>i<length ?fs. ?fs ! i = ''Price'' \<and> price_index st' = 0 + i) \<and>
                 old_price st' = captured_price env item_in_file
            else price_index st' = price_index ?st \<and> old_price st' = old_price ?st"
    by blast
  have len': "length (csv_record st') = length ?fs" using len0 len by simp
  have cells: "\<forall>j<length ?fs. csv_record st' ! j =
                   merged_cell env item_in_file (?fs ! j) (snd (asset_data ! j))"
    using cells0 len by simp
  have pr: "if ''Price'' \<in> set ?fs \<and> price_captured env item_in_file
            then (\<exists>i<length ?fs. ?fs ! i = ''Price'' \<and> price_index st' = i) \<and>
                 old_price st' = captured_price env item_in_file
            else price_index st' = 0 \<and> old_price st' = nd"
    using pr0 by (auto split: if_splits)
  have unfold: "update_and_merge_csv_record_data env asset_id asset_data items_in_file nd =
      (if price_index st' > 0 then
         (case list_set (csv_record st') (price_index st' + 1) (PFloat (old_price st')) of
            Inl e \<Rightarrow> Inl e
          | Inr r \<Rightarrow> Inr (r, merge_logs st'))
       else Inr (csv_record st', merge_logs st'))"
    using row ne cnt run by (simp add: update_and_merge_csv_record_data_def Let_def)
  have slot_unique: "j = Suc i"
    if "i < length ?fs" "?fs ! i = ''Price''" "j < length ?fs" "old_price_slot env item_in_file j" for i j
  proof -
    from that(4) have j2: "2 \<le> j" and fj: "?fs ! (j - 1) = ''Price''"
      by (simp_all add: old_price_slot_def)
    have jl: "j - 1 < length ?fs" using that(3) by simp
    have "?fs ! (j - 1) = ?fs ! i" using fj that(2) by simp
    with d jl that(1) have "j - 1 = i" by (simp only: nth_eq_iff_index_eq)
    with j2 show ?thesis by simp
  qed
  show ?thesis
  proof (cases "''Price'' \<in> set ?fs \<and> price_captured env item_in_file")
    case True
    with pr obtain i where i: "i < length ?fs" "?fs ! i = ''Price''" "price_index st' = i"
      and op: "old_price st' = captured_price env item_in_file" by auto
    show ?thesis
    proof (cases "0 < i")
      case pos: True
      have si: "Suc i < length ?fs" using nl i by simp
      let ?r = "(csv_record st')[Suc i := PFloat (captured_price env item_in_file)]"
      have res: "update_and_merge_csv_record_data env asset_id asset_data items_in_file nd
                   = Inr (?r, merge_logs st')"
        using unfold i pos si len' op by (simp add: list_set_def)
      have "\<forall>j<length ?fs. ?r ! j = (if old_price_slot env item_in_file j
                       then PFloat (captured_price env item_in_file)
                       else merged_cell env item_in_file (?fs ! j) (snd (asset_data ! j)))"
      proof (intro allI impI)
        fix j assume j: "j < length ?fs"
        show "?r ! j = (if old_price_slot env item_in_file j
                       then PFloat (captured_price env item_in_file)
                       else merged_cell env item_in_file (?fs ! j) (snd (asset_data ! j)))"
        proof (cases "j = Suc i")
          case True
          then have "old_price_slot env item_in_file j"
            using i pos \<open>''Price'' \<in> set ?fs \<and> price_captured env item_in_file\<close>
            by (simp add: old_price_slot_def)
          then show ?thesis using True si len' by simp
        next
          case False
          then have "\<not> old_price_slot env item_in_file j"
            using slot_unique [OF i(1) i(2) j] by blast
          then show ?thesis using False cells j by simp
        qed
      qed
      with res len' show ?thesis by simp
    next
      case zero: False
      then have i0: "i = 0" by simp
      have res: "update_and_merge_csv_record_data env asset_id asset_data items_in_file nd
                   = Inr (csv_record st', merge_logs st')"
        using unfold i i0 by simp
      have "\<not> old_price_slot env item_in_file j" if "j < length ?fs" for j
        using slot_unique [OF i(1) i(2) that] i0 by (auto simp: old_price_slot_def)
      with res len' cells show ?thesis by simp
    qed
  next
    case False
    with pr have p0: "price_index st' = 0" by auto
    have res: "update_and_merge_csv_record_data env asset_id asset_data items_in_file nd
                   = Inr (csv_record st', merge_logs st')"
      using unfold p0 by simp
    have "\<not> old_price_slot env item_in_file j" if "j < length ?fs" for j
    proof
      assume s: "old_price_slot env item_in_file j"
      then have "?fs ! (j - 1) = ''Price''" "price_captured env item_in_file"
        by (simp_all add: old_price_slot_def)
      moreover have "j - 1 < length ?fs" using that by simp
      ultimately have "''Price'' \<in> set ?fs \<and> price_captured env item_in_file"
        by (metis nth_mem)
      with False show False by simp
    qed
    with res len' cells show ?thesis by simp
  qed
qed

lemma merge_result_ok:
  assumes s: "schema_ok env" and i: "incoming_ok env asset_data"
    and e: "existing_row env items_in_file asset_id item_in_file"
  shows "\<exists>r logs. update_and_merge_csv_record_data env asset_id asset_data items_in_file nd = Inr (r, logs) \<and>
           length r = length (csv_field_names env) \<and>
           (\<forall>j<length (csv_field_names env).
              r ! j = (if old_price_slot env item_in_file j
                       then PFloat (captured_price env item_in_file)
                       else merged_cell env item_in_file (csv_field_names env ! j) (snd (asset_data ! j))))"
proof (rule merge_result)
  show "distinct (csv_field_names env)" using s by (simp add: schema_ok_def)
  show "length asset_data = length (csv_field_names env)" using i by (simp add: incoming_ok_def)
  show "map_of items_in_file asset_id = Some item_in_file" using e by (simp add: existing_row_def)
  show "item_in_file \<noteq> []" using e by (simp add: existing_row_def)
  show "dict_len item_in_file = length (csv_field_names env)" using e by (simp add: existing_row_def)
  show "\<forall>i<length (csv_field_names env).
                csv_field_names env ! i = ''Origin'' \<longrightarrow> is_text (snd (asset_data ! i))"
    using i by (simp add: incoming_ok_def)
  show "\<forall>i<length (csv_field_names env).
                csv_field_names env ! i = ''Price'' \<longrightarrow> Suc i < length (csv_field_names env)"
    using s by (simp add: schema_ok_def)
qed

lemma old_price_slot_field:
  assumes "schema_ok env" "j < length (csv_field_names env)" "old_price_slot env item_in_file j"
  shows "csv_field_names env ! j = ''Old price''"
proof -
  from assms(3) have j2: "2 \<le> j" and p: "csv_field_names env ! (j - 1) = ''Price''"
    by (simp_all add: old_price_slot_def)
  have "j - 1 < length (csv_field_names env)" using assms(2) by simp
  with assms(1) p have "csv_field_names env ! Suc (j - 1) = ''Old price''"
    by (simp add: schema_ok_def)
  with j2 show ?thesis by simp
qed

lemma sample_schema_ok: "schema_ok sample_env"
  by (simp add: schema_ok_def sample_env_def nth_Cons' less_Suc_eq)

lemma sample_incoming_ok: "incoming_ok sample_env sample_asset"
  by (simp add: incoming_ok_def sample_env_def sample_asset_def nth_Cons' less_Suc_eq is_text_def)

lemma sample_existing_row: "existing_row sample_env [(''A1'', sample_row)] ''A1'' sample_row"
  by (simp add: existing_row_def sample_env_def sample_row_def dict_len_def)

text \<open>
  C1. For an asset id that has a row in the file with the expected number of keys, and
  for every field that is preserved and whose cell in that row is present and is not the
  empty-cell marker, the merge returns a record whose value for the field is the cell of
  the file: the boolean it denotes when it is a boolean literal, the stored text
  otherwise. The field table is taken with \<open>Old price\<close> directly after \<open>Price\<close> and not
  among the preserved fields, as the price history requires.
\<close>

theorem preservation_invariant:
  assumes "schema_ok env" and "\<not> is_preserved env ''Old price''"
    and "incoming_ok env asset_data"
    and "existing_row env items_in_file asset_id item_in_file"
    and "i < length (csv_field_names env)"
    and "is_preserved env (csv_field_names env ! i)"
    and "row_get item_in_file (csv_field_names env ! i) = Some v"
    and "v \<noteq> empty_cell env"
  shows "\<exists>r logs.
           update_and_merge_csv_record_data env asset_id asset_data items_in_file no_data_value
             = Inr (r, logs) \<and>
           r ! i = (if str_is_bool env v then PBool (str_to_bool env v) else PStr v)"
proof -
  from merge_result_ok [OF assms(1,3,4), of no_data_value]
  obtain r logs where
    res: "update_and_merge_csv_record_data env asset_id asset_data items_in_file no_data_value
            = Inr (r, logs)"
    and cells: "\<forall>j<length (csv_field_names env).
              r ! j = (if old_price_slot env item_in_file j
                       then PFloat (captured_price env item_in_file)
                       else merged_cell env item_in_file (csv_field_names env ! j) (snd (asset_data ! j)))"
    by blast
  have "\<not> old_price_slot env item_in_file i"
    using old_price_slot_field [OF assms(1,5)] assms(2,6) by auto
  with cells assms(5) have "r ! i = merged_cell env item_in_file (csv_field_names env ! i) (snd (asset_data ! i))"
    by simp
  also have "\<dots> = kept_value env v"
    using assms(6,7,8) by (simp add: merged_cell_def)
  finally show ?thesis using res by (simp add: kept_value_def)
qed

theorem preservation_invariant_witness:
  "schema_ok sample_env \<and> \<not> is_preserved sample_env ''Old price'' \<and>
   incoming_ok sample_env sample_asset \<and>
   existing_row sample_env [(''A1'', sample_row)] ''A1'' sample_row \<and>
   csv_field_names sample_env ! 5 = ''Must buy'' \<and> is_preserved sample_env ''Must buy'' \<and>
   row_get sample_row ''Must buy'' = Some ''True'' \<and> ''True'' \<noteq> empty_cell sample_env \<and>
   (\<exists>r logs. update_and_merge_csv_record_data sample_env ''A1'' sample_asset
                [(''A1'', sample_row)] 0 = Inr (r, logs) \<and> r ! 5 = PBool True)"
proof -
  have h2: "\<not> is_preserved sample_env ''Old price''" by (simp add: sample_env_def)
  have h5: "5 < length (csv_field_names sample_env)" by (simp add: sample_env_def)
  have f5: "csv_field_names sample_env ! 5 = ''Must buy''" by (simp add: sample_env_def)
  have h6: "is_preserved sample_env (csv_field_names sample_env ! 5)" by (simp add: sample_env_def)
  have h7: "row_get sample_row (csv_field_names sample_env ! 5) = Some ''True''"
    by (simp add: sample_env_def sample_row_def row_get_def)
  have h8: "''True'' \<noteq> empty_cell sample_env" by (simp add: sample_env_def)
  have b: "str_is_bool sample_env ''True''" "str_to_bool sample_env ''True''"
    by (simp_all add: sample_env_def)
  from preservation_invariant [OF sample_schema_ok h2 sample_incoming_ok sample_existing_row
      h5 h6 h7 h8, of 0] b
  have "\<exists>r logs. update_and_merge_csv_record_data sample_env ''A1'' sample_asset
                [(''A1'', sample_row)] 0 = Inr (r, logs) \<and> r ! 5 = PBool True"
    by simp
  with sample_schema_ok h2 sample_incoming_ok sample_existing_row f5 h6 h7 h8
  show ?thesis by simp
qed








text \<open>
  C6. The merged record is the list of the incoming values, unchanged, when the asset id
  has no row in the file, and when its row does not have as many keys as there are
  fields; in the second case one error is logged. Both hold for the merge function and
  for its call in \<open>list_assets\<close>.
\<close>

theorem incoming_unchanged:
  "(map_of assets_in_file asset_id = None \<longrightarrow>
      update_and_merge_csv_record_data env asset_id asset_data assets_in_file no_data_value
        = Inr (map snd asset_data, []) \<and>
      csv_record_merged env asset_id asset_data assets_in_file no_data_value
        = Inr (map snd asset_data, [])) \<and>
   (map_of assets_in_file asset_id = Some item_in_file \<and> item_in_file \<noteq> [] \<and>
    dict_len item_in_file \<noteq> length (csv_field_names env) \<longrightarrow>
      update_and_merge_csv_record_data env asset_id asset_data assets_in_file no_data_value
        = Inr (map snd asset_data, [Error_field_count asset_id]) \<and>
      csv_record_merged env asset_id asset_data assets_in_file no_data_value
        = Inr (map snd asset_data, [Error_field_count asset_id]))"
  by (auto simp: update_and_merge_csv_record_data_def csv_record_merged_def Let_def)

theorem incoming_unchanged_witness:
  "map_of [(''A1'', sample_row)] ''B1'' = None \<and>
   csv_record_merged sample_env ''B1'' sample_asset [(''A1'', sample_row)] 0
     = Inr (map snd sample_asset, []) \<and>
   map_of [(''A1'', butlast sample_row)] ''A1'' = Some (butlast sample_row) \<and>
   butlast sample_row \<noteq> [] \<and>
   dict_len (butlast sample_row) \<noteq> length (csv_field_names sample_env) \<and>
   csv_record_merged sample_env ''A1'' sample_asset [(''A1'', butlast sample_row)] 0
     = Inr (map snd sample_asset, [Error_field_count ''A1''])"
proof -
  have a: "map_of [(''A1'', sample_row)] ''B1'' = None" by simp
  have b: "map_of [(''A1'', butlast sample_row)] ''A1'' = Some (butlast sample_row) \<and>
     butlast sample_row \<noteq> [] \<and>
     dict_len (butlast sample_row) \<noteq> length (csv_field_names sample_env)"
    by (simp add: sample_row_def sample_env_def dict_len_def)
  from incoming_unchanged [where assets_in_file = "[(''A1'', sample_row)]" and asset_id = "''B1''"
      and env = sample_env and asset_data = sample_asset and no_data_value = 0] a
  have 1: "csv_record_merged sample_env ''B1'' sample_asset [(''A1'', sample_row)] 0
     = Inr (map snd sample_asset, [])" by blast
  from incoming_unchanged [where assets_in_file = "[(''A1'', butlast sample_row)]"
      and asset_id = "''A1''" and item_in_file = "butlast sample_row"
      and env = sample_env and asset_data = sample_asset and no_data_value = 0] b
  have 2: "csv_record_merged sample_env ''A1'' sample_asset [(''A1'', butlast sample_row)] 0
     = Inr (map snd sample_asset, [Error_field_count ''A1''])" by blast
  from a b 1 2 show ?thesis by simp
qed

subsection \<open>Splitting and joining: proofs\<close>

lemma split_on_not_Nil: "split_on c s \<noteq> []"
  by (induction s) (auto split: list.splits)

lemma split_on_no_sep: "w \<in> set (split_on c s) \<Longrightarrow> c \<notin> set w"
proof (induction s arbitrary: w)
  case Nil
  then show ?case by simp
next
  case (Cons x xs)
  then show ?case
    by (cases "split_on c xs") (auto split: if_splits)
qed

lemma split_on_word: "c \<notin> set w \<Longrightarrow> split_on c w = [w]"
  by (induction w) auto

lemma split_on_append: "c \<notin> set w \<Longrightarrow> split_on c (w @ c # rest) = w # split_on c rest"
  by (induction w) auto

lemma split_on_join:
  "xs \<noteq> [] \<Longrightarrow> \<forall>w \<in> set xs. c \<notin> set w \<Longrightarrow> split_on c (join_with [c] xs) = xs"
proof (induction "[c]" xs rule: join_with.induct)
  case 1
  then show ?case by simp
next
  case (2 w)
  then show ?case by (simp add: split_on_word)
next
  case (3 w v ws)
  then show ?case by (simp add: split_on_append)
qed

lemma join_split: "join_with [c] (split_on c s) = s"
proof (induction s)
  case Nil
  then show ?case by simp
next
  case (Cons x xs)
  show ?case
  proof (cases "split_on c xs")
    case Nil
    then show ?thesis using split_on_not_Nil by blast
  next
    case (Cons w ws)
    with Cons.IH show ?thesis
      by (cases ws) auto
  qed
qed

lemma set_union_folders: "set (union_folders v s) = set (split_on CHR '','' v) \<union> {s}"
  by (auto simp: union_folders_def Let_def)

lemma distinct_union_folders:
  "distinct (split_on CHR '','' v) \<Longrightarrow> distinct (union_folders v s)"
  by (auto simp: union_folders_def Let_def)

lemma split_union_folders:
  assumes "CHR '','' \<notin> set s"
  shows "split_on CHR '','' (join_with '','' (union_folders v s)) = union_folders v s"
proof (rule split_on_join)
  show "union_folders v s \<noteq> []"
    using split_on_not_Nil [of "CHR '',''" v] by (auto simp: union_folders_def Let_def)
  show "\<forall>w \<in> set (union_folders v s). CHR '','' \<notin> set w"
    using assms split_on_no_sep [of _ "CHR '',''" v] by (auto simp: set_union_folders)
qed

section \<open>Merge pass: proofs\<close>

lemma merge_pass_distinct:
  "distinct (map fst out) \<Longrightarrow> distinct (map fst (merge_pass mk xs out))"
  by (induction xs arbitrary: out) (auto simp: Let_def distinct_update)

lemma merge_pass_lookup:
  assumes "\<forall>it \<in> set xs. mk it (asset_id_of it) \<noteq> []"
    and "\<forall>k r. map_of out k = Some r \<longrightarrow> r \<noteq> []"
  shows "map_of (merge_pass mk xs out) a =
           (case map_of out a of
              Some r \<Rightarrow> Some r
            | None \<Rightarrow> (case find (\<lambda>it. asset_id_of it = a) xs of
                         Some it \<Rightarrow> Some (mk it a)
                       | None \<Rightarrow> None))"
  using assms
proof (induction xs arbitrary: out)
  case Nil
  then show ?case by (simp split: option.splits)
next
  case (Cons x xs)
  show ?case
  proof (cases "dict_truthy (map_of out (asset_id_of x))")
    case True
    then obtain r where r: "map_of out (asset_id_of x) = Some r"
      by (auto simp: dict_truthy_def split: option.splits)
    have "map_of (merge_pass mk (x # xs) out) a = map_of (merge_pass mk xs out) a"
      using True by (simp add: Let_def)
    also have "\<dots> = (case map_of out a of
              Some r \<Rightarrow> Some r
            | None \<Rightarrow> (case find (\<lambda>it. asset_id_of it = a) xs of
                         Some it \<Rightarrow> Some (mk it a)
                       | None \<Rightarrow> None))"
      using Cons.IH [of out] Cons.prems by simp
    finally show ?thesis using r by (auto split: option.splits)
  next
    case False
    have none: "map_of out (asset_id_of x) = None"
    proof (cases "map_of out (asset_id_of x)")
      case None then show ?thesis .
    next
      case (Some r)
      with Cons.prems(2) have "r \<noteq> []" by blast
      with Some False show ?thesis by (simp add: dict_truthy_def)
    qed
    let ?out = "AList.update (asset_id_of x) (mk x (asset_id_of x)) out"
    have inv: "\<forall>k r. map_of ?out k = Some r \<longrightarrow> r \<noteq> []"
      using Cons.prems by (auto simp: update_conv')
    have "map_of (merge_pass mk (x # xs) out) a = map_of (merge_pass mk xs ?out) a"
      using False by (simp add: Let_def)
    also have "\<dots> = (case map_of ?out a of
              Some r \<Rightarrow> Some r
            | None \<Rightarrow> (case find (\<lambda>it. asset_id_of it = a) xs of
                         Some it \<Rightarrow> Some (mk it a)
                       | None \<Rightarrow> None))"
      using Cons.IH [of ?out] Cons.prems(1) inv by simp
    finally show ?thesis using none by (auto simp: update_conv' split: option.splits)
  qed
qed

lemma find_descending:
  assumes "sorted (rev (map f ys))" and "find P ys = Some it" and "y \<in> set ys" and "P y"
  shows "f y \<le> f it"
proof -
  from assms(2) obtain i where i: "i < length ys" "P (ys ! i)" "it = ys ! i"
    "\<forall>j<i. \<not> P (ys ! j)"
    by (auto simp: find_Some_iff)
  from assms(3) obtain k where k: "k < length ys" "y = ys ! k"
    by (auto simp: in_set_conv_nth)
  have "i \<le> k" using i(4) k assms(4) by (meson not_le)
  have "sorted (rev (map f ys))" by fact
  then have "rev (map f ys) ! (length ys - 1 - k) \<le> rev (map f ys) ! (length ys - 1 - i)"
    using \<open>i \<le> k\<close> k(1) i(1) by (intro sorted_nth_mono) auto
  then show ?thesis using i k by (simp add: rev_nth)
qed

lemma sorted_items_descending:
  "sorted (rev (map (\<lambda>x. lower (app_name x)) (sorted_items lower items)))"
  by (simp add: sorted_items_def rev_map [symmetric])

lemma set_sorted_items: "set (sorted_items lower items) = set items"
  by (simp add: sorted_items_def)

end
